theory Spec2Isabelle
  imports Main
begin

section \<open>Python primitives used by constraint\_eqs.py\<close>

text \<open>
  Text is a \<open>string\<close>: a list of characters, each standing for one code point below 256.
  A file is read in text mode, so the content seen by the script is the decoded text with
  every line ending already translated to the newline character.
\<close>

datatype error = FileNotFoundError | ValueError | KeyError

text \<open>\<open>str(n)\<close> and the f-string field \<open>{n}\<close> for an integer: decimal digits, with a
  leading minus sign for a negative number.\<close>

fun digits :: "nat \<Rightarrow> string" where
  "digits n =
     (if n < 10 then [''0123456789'' ! n]
      else digits (n div 10) @ [''0123456789'' ! (n mod 10)])"

declare digits.simps [simp del]

definition str_int :: "int \<Rightarrow> string" where
  "str_int i = (if i < 0 then CHR ''-'' # digits (nat (- i)) else digits (nat i))"

text \<open>\<open>sub in s\<close>: the substring test, scanning \<open>s\<close> from the left.\<close>

fun starts_with :: "string \<Rightarrow> string \<Rightarrow> bool" where
  "starts_with [] s = True"
| "starts_with (a # sub) [] = False"
| "starts_with (a # sub) (c # s) = (a = c \<and> starts_with sub s)"

fun contains :: "string \<Rightarrow> string \<Rightarrow> bool" where
  "contains sub [] = (sub = [])"
| "contains sub (c # s) = (starts_with sub (c # s) \<or> contains sub s)"

text \<open>\<open>c.isspace()\<close> on the code points below 256: tab, line feed, vertical tab, form
  feed, carriage return, the four separators 28 to 31, space, next line (133) and
  no-break space (160).\<close>

definition isspace :: "char \<Rightarrow> bool" where
  "isspace c =
     (let k = (of_char c :: nat)
      in (9 \<le> k \<and> k \<le> 13) \<or> (28 \<le> k \<and> k \<le> 32) \<or> k = 133 \<or> k = 160)"

text \<open>\<open>s.strip()\<close>: drop the whitespace at both ends.\<close>

definition strip :: "string \<Rightarrow> string" where
  "strip s = rev (dropWhile isspace (rev (dropWhile isspace s)))"

text \<open>\<open>s.split(', ')\<close>: cut \<open>s\<close> at every occurrence of a comma followed by a space,
  found from the left without overlap; the first argument is the piece being collected.
  A string without the separator gives the one-element list holding it.\<close>

fun split_from :: "string \<Rightarrow> string \<Rightarrow> string list" where
  "split_from cur [] = [cur]"
| "split_from cur [c] = [cur @ [c]]"
| "split_from cur (c # d # s) =
     (if c = CHR '','' \<and> d = CHR '' '' then cur # split_from [] s
      else split_from (cur @ [c]) (d # s))"

definition split_comma_space :: "string \<Rightarrow> string list" where
  "split_comma_space s = split_from [] s"

text \<open>\<open>f.readlines()\<close>: the lines of the text, each with its newline kept; a last line
  without a newline is a line too, and the empty text has no line.\<close>

fun readlines_from :: "string \<Rightarrow> string \<Rightarrow> string list" where
  "readlines_from cur [] = (if cur = [] then [] else [cur])"
| "readlines_from cur (c # s) =
     (if c = CHR 0x0A then (cur @ [c]) # readlines_from [] s
      else readlines_from (cur @ [c]) s)"

definition readlines :: "string \<Rightarrow> string list" where
  "readlines s = readlines_from [] s"

section \<open>The data model\<close>

text \<open>
  \<open>Point = namedtuple('Point', ['x', 'y', 'z'])\<close>. The coordinates are Python floats;
  the type \<open>'f\<close> stands for them, \<open>float(s)\<close> is a parameter
  \<open>float_of :: string \<Rightarrow> 'f option\<close> (\<open>None\<close> where Python raises ValueError) and
  the f-string field \<open>{x}\<close> of a float is a parameter \<open>fmt :: 'f \<Rightarrow> string\<close>.
  The node table is a dictionary from the identifier as written in the file to its point.
  The file system is a map from file names to text.
\<close>

datatype 'f Point = Point (x_of: 'f) (y_of: 'f) (z_of: 'f)

type_synonym 'f nodes_map = "string \<rightharpoonup> 'f Point"

type_synonym files = "string \<rightharpoonup> string"

section \<open>The formatters\<close>

text \<open>\<open>MPC\<close>: the loop over \<open>zip(nodes, base_nodes, movable_nodes)\<close> appends one
  equation text to \<open>equations\<close>; the result is their concatenation.\<close>

definition equation :: "int \<Rightarrow> int \<Rightarrow> int \<Rightarrow> string" where
  "equation node_id base_node_id mv_node_id =
     ''** MY EQUATIONS\<newline>*EQUATION\<newline>'' @
     ''3\<newline>'' @
     str_int node_id @ '', '' @ str_int 3 @ '', -1, '' @
     str_int base_node_id @ '', '' @ str_int 3 @ '', 1, '' @
     str_int mv_node_id @ '', '' @ str_int 3 @ '', 1\<newline>''"

definition MPC_equations :: "int list \<Rightarrow> int list \<Rightarrow> int list \<Rightarrow> string list" where
  "MPC_equations nodes base_nodes movable_nodes =
     foldl (\<lambda>equations (node_id, base_node_id, mv_node_id).
              equations @ [equation node_id base_node_id mv_node_id])
       [] (zip nodes (zip base_nodes movable_nodes))"

definition MPC :: "int list \<Rightarrow> int list \<Rightarrow> int list \<Rightarrow> string" where
  "MPC nodes base_nodes movable_nodes = concat (MPC_equations nodes base_nodes movable_nodes)"

text \<open>\<open>constrain_dofs\<close> and \<open>fix_base\<close>: the text starts as the section header and the
  loop appends one line per node.\<close>

definition constrain_dofs :: "int list \<Rightarrow> string" where
  "constrain_dofs nodes =
     foldl (\<lambda>s node_id. s @ str_int node_id @ '', 1, 2\<newline>'')
       ''** MY BOUNDARIES\<newline>*BOUNDARY\<newline>'' nodes"

definition fix_base :: "int list \<Rightarrow> string" where
  "fix_base nodes =
     foldl (\<lambda>s node_id. s @ str_int node_id @ '', 1, 3, 0\<newline>'')
       ''** Name: MY BOUNDARIES\<newline>*BOUNDARY\<newline>'' nodes"

section \<open>Node-table extraction\<close>

text \<open>
  \<open>get_nodes_map\<close>: the loop over the lines carries the flag \<open>found\<close> and the table.
  Before the marker a line is only tested for \<open>*Node\<close>; after it a line containing
  \<open>**\<close> ends the loop (\<open>break\<close>) and any other line is unpacked into four fields, which
  raises ValueError unless the split gives exactly four, and the last three are
  converted by \<open>float\<close>, which raises ValueError too. The message printed when the marker
  is found goes to the standard output, which is not part of the model.
\<close>

fun parse_record :: "(string \<Rightarrow> 'f option) \<Rightarrow> string \<Rightarrow> error + (string \<times> 'f Point)" where
  "parse_record float_of line =
     (case split_comma_space line of
        [node_id, x, y, z] \<Rightarrow>
          (case float_of x of None \<Rightarrow> Inl ValueError
           | Some fx \<Rightarrow>
          (case float_of y of None \<Rightarrow> Inl ValueError
           | Some fy \<Rightarrow>
          (case float_of z of None \<Rightarrow> Inl ValueError
           | Some fz \<Rightarrow> Inr (node_id, Point fx fy fz))))
      | _ \<Rightarrow> Inl ValueError)"

fun scan_lines ::
  "(string \<Rightarrow> 'f option) \<Rightarrow> bool \<Rightarrow> 'f nodes_map \<Rightarrow> string list \<Rightarrow> error + 'f nodes_map" where
  "scan_lines float_of found nodes_map [] = Inr nodes_map"
| "scan_lines float_of found nodes_map (raw # rest) =
     (let line = strip raw in
      if found then
        (if contains ''**'' line then Inr nodes_map
         else (case parse_record float_of line of
                 Inl e \<Rightarrow> Inl e
               | Inr (node_id, p) \<Rightarrow>
                   scan_lines float_of found (nodes_map(node_id \<mapsto> p)) rest))
      else
        (if contains ''*Node'' line then scan_lines float_of True nodes_map rest
         else scan_lines float_of found nodes_map rest))"

definition get_nodes_map ::
  "(string \<Rightarrow> 'f option) \<Rightarrow> files \<Rightarrow> string \<Rightarrow> error + 'f nodes_map" where
  "get_nodes_map float_of fs calculix_filename =
     (case fs calculix_filename of
        None \<Rightarrow> Inl FileNotFoundError
      | Some content \<Rightarrow> scan_lines float_of False Map.empty (readlines content))"

section \<open>Node synthesis\<close>

text \<open>\<open>gen_nodes\<close>: the loop over \<open>enumerate(query_nodes)\<close> looks the node up under
  \<open>str(node_id)\<close> (KeyError when it is absent), appends the new identifier
  \<open>first_node_id + i\<close> and one line of text.\<close>

fun gen_nodes_loop ::
  "('f \<Rightarrow> string) \<Rightarrow> 'f nodes_map \<Rightarrow> int \<Rightarrow> (nat \<times> int) list \<Rightarrow> string \<Rightarrow> int list
     \<Rightarrow> error + (string \<times> int list)" where
  "gen_nodes_loop fmt nodes_map first_node_id [] s dummy_nodes = Inr (s, dummy_nodes)"
| "gen_nodes_loop fmt nodes_map first_node_id ((i, node_id) # rest) s dummy_nodes =
     (case nodes_map (str_int node_id) of
        None \<Rightarrow> Inl KeyError
      | Some (Point x y z) \<Rightarrow>
          gen_nodes_loop fmt nodes_map first_node_id rest
            (s @ str_int (first_node_id + int i) @ '', '' @ fmt x @ '', '' @ fmt y @ '', '' @
               fmt z @ ''\<newline>'')
            (dummy_nodes @ [first_node_id + int i]))"

definition gen_nodes ::
  "(string \<Rightarrow> 'f option) \<Rightarrow> ('f \<Rightarrow> string) \<Rightarrow> files \<Rightarrow> int \<Rightarrow> int list \<Rightarrow> string
     \<Rightarrow> error + (string \<times> int list)" where
  "gen_nodes float_of fmt fs first_node_id query_nodes calculix_filename =
     (case get_nodes_map float_of fs calculix_filename of
        Inl e \<Rightarrow> Inl e
      | Inr nodes_map \<Rightarrow>
          gen_nodes_loop fmt nodes_map first_node_id (enumerate 0 query_nodes)
            ''** MY NODES\<newline>*Node\<newline>'' [])"

section \<open>Notions used to state the properties\<close>




text \<open>The lines the loop stores as a record: stripped, the line splits into exactly four
  fields of which the last three are accepted by \<open>float\<close>. The identifier field is not
  looked at.\<close>

definition parsed_as_record :: "(string \<Rightarrow> 'f option) \<Rightarrow> string \<Rightarrow> bool" where
  "parsed_as_record float_of line =
     (case split_comma_space (strip line) of
        [node_id, x, y, z] \<Rightarrow> float_of x \<noteq> None \<and> float_of y \<noteq> None \<and> float_of z \<noteq> None
      | _ \<Rightarrow> False)"

text \<open>
  The specification's well-formed record \<open>identifier, x, y, z\<close>: stripped, the line is four
  fields separated by comma and space, the first a string-formatted integer (decimal
  digits, after a minus sign or not) and the last three accepted by \<open>float\<close>.
\<close>

definition is_integer_text :: "string \<Rightarrow> bool" where
  "is_integer_text s =
     (case s of
        [] \<Rightarrow> False
      | c # ds \<Rightarrow>
          (if c = CHR ''-'' then ds \<noteq> [] \<and> list_all (\<lambda>d. d \<in> set ''0123456789'') ds
           else list_all (\<lambda>d. d \<in> set ''0123456789'') (c # ds)))"

definition well_formed_record :: "(string \<Rightarrow> 'f option) \<Rightarrow> string \<Rightarrow> bool" where
  "well_formed_record float_of line =
     (case split_comma_space (strip line) of
        [node_id, x, y, z] \<Rightarrow>
          is_integer_text node_id \<and>
          float_of x \<noteq> None \<and> float_of y \<noteq> None \<and> float_of z \<noteq> None
      | _ \<Rightarrow> False)"

text \<open>
  For the examples a float is stood for by an integer: \<open>float_sample\<close> and \<open>repr_sample\<close>
  agree with \<open>float\<close> and with the f-string field of a float on the literals \<open>0.0\<close> to
  \<open>3.0\<close>, the only ones the examples convert, and \<open>float_sample\<close> rejects a text that
  is no number.
\<close>

definition float_sample :: "string \<Rightarrow> int option" where
  "float_sample s =
     (if s = ''0.0'' then Some 0 else if s = ''1.0'' then Some 1
      else if s = ''2.0'' then Some 2 else if s = ''3.0'' then Some 3 else None)"

definition repr_sample :: "int \<Rightarrow> string" where
  "repr_sample v = str_int v @ ''.0''"

section \<open>Strings: substring test, strip and split\<close>

lemma starts_with_iff: "starts_with sub s \<longleftrightarrow> (\<exists>q. s = sub @ q)"
  by (induction sub s rule: starts_with.induct) auto

lemma contains_iff: "contains sub s \<longleftrightarrow> (\<exists>p q. s = p @ sub @ q)"
proof (induction s)
  case Nil
  show ?case by auto
next
  case (Cons c s)
  show ?case
  proof
    assume "contains sub (c # s)"
    then consider "starts_with sub (c # s)" | "contains sub s" by auto
    then show "\<exists>p q. c # s = p @ sub @ q"
    proof cases
      case 1
      then obtain q where "c # s = sub @ q" by (auto simp: starts_with_iff)
      then have "c # s = [] @ sub @ q" by simp
      then show ?thesis by blast
    next
      case 2
      then obtain p q where "s = p @ sub @ q" using Cons.IH by auto
      then have "c # s = (c # p) @ sub @ q" by simp
      then show ?thesis by blast
    qed
  next
    assume "\<exists>p q. c # s = p @ sub @ q"
    then obtain p q where pq: "c # s = p @ sub @ q" by blast
    show "contains sub (c # s)"
    proof (cases p)
      case Nil
      with pq have "starts_with sub (c # s)" by (auto simp: starts_with_iff)
      then show ?thesis by simp
    next
      case (Cons a p')
      with pq have "s = p' @ sub @ q" by simp
      then have "contains sub s" using Cons.IH by blast
      then show ?thesis by simp
    qed
  qed
qed

lemma contains_rev: "contains (rev sub) (rev s) = contains sub s"
proof -
  have "(\<exists>p q. rev s = p @ rev sub @ q) \<longleftrightarrow> (\<exists>p q. s = p @ sub @ q)"
  proof
    assume "\<exists>p q. rev s = p @ rev sub @ q"
    then obtain p q where "rev s = p @ rev sub @ q" by blast
    then have "rev (rev s) = rev (p @ rev sub @ q)" by simp
    then have "s = rev q @ sub @ rev p" by simp
    then show "\<exists>p q. s = p @ sub @ q" by blast
  next
    assume "\<exists>p q. s = p @ sub @ q"
    then obtain p q where "s = p @ sub @ q" by blast
    then have "rev s = rev q @ rev sub @ rev p" by simp
    then show "\<exists>p q. rev s = p @ rev sub @ q" by blast
  qed
  then show ?thesis by (simp add: contains_iff)
qed

lemma contains_dropWhile:
  assumes "sub \<noteq> []" and "\<not> P (hd sub)"
  shows "contains sub (dropWhile P l) = contains sub l"
proof (induction l)
  case Nil
  show ?case by simp
next
  case (Cons c l)
  show ?case
  proof (cases "P c")
    case True
    obtain a sub' where sub: "sub = a # sub'" using assms(1) by (cases sub) auto
    with assms(2) True have "a \<noteq> c" by auto
    then have "\<not> starts_with sub (c # l)" by (simp add: sub)
    then show ?thesis using True Cons.IH by simp
  next
    case False
    then show ?thesis by simp
  qed
qed

lemma contains_strip:
  assumes "sub \<noteq> []" and "\<not> isspace (hd sub)" and "\<not> isspace (last sub)"
  shows "contains sub (strip l) = contains sub l"
proof -
  have r: "rev sub \<noteq> []" "\<not> isspace (hd (rev sub))"
    using assms by (simp_all add: hd_rev)
  have "contains sub (strip l) = contains (rev sub) (dropWhile isspace (rev (dropWhile isspace l)))"
    unfolding strip_def by (metis contains_rev rev_rev_ident)
  also have "\<dots> = contains (rev sub) (rev (dropWhile isspace l))"
    using r by (rule contains_dropWhile)
  also have "\<dots> = contains sub (dropWhile isspace l)"
    by (rule contains_rev)
  also have "\<dots> = contains sub l"
    using assms(1,2) by (rule contains_dropWhile)
  finally show ?thesis .
qed

lemma isspace_star: "\<not> isspace CHR ''*''"
  by (simp add: isspace_def)

lemma isspace_e: "\<not> isspace CHR ''e''"
  by (simp add: isspace_def)

lemma contains_marker_strip: "contains ''*Node'' (strip l) = contains ''*Node'' l"
  by (rule contains_strip) (simp_all add: isspace_star isspace_e)

lemma contains_comment_strip: "contains ''**'' (strip l) = contains ''**'' l"
  by (rule contains_strip) (simp_all add: isspace_star)

lemma split_from_field:
  "\<not> contains '', '' f \<Longrightarrow> split_from cur (f @ '', '' @ rest) = (cur @ f) # split_from [] rest"
proof (induction f arbitrary: cur)
  case Nil
  show ?case by simp
next
  case (Cons c f)
  then have nf: "\<not> contains '', '' f" and ns: "\<not> starts_with '', '' (c # f)" by auto
  show ?case
  proof (cases f)
    case Nil
    then show ?thesis by simp
  next
    case (Cons d f')
    with ns have "\<not> (c = CHR '','' \<and> d = CHR '' '')" by auto
    then have "split_from cur ((c # f) @ '', '' @ rest) = split_from (cur @ [c]) (f @ '', '' @ rest)"
      using Cons by auto
    then show ?thesis using Cons.IH [OF nf, of "cur @ [c]"] by simp
  qed
qed

lemma split_from_last:
  "\<not> contains '', '' f \<Longrightarrow> split_from cur f = [cur @ f]"
proof (induction f arbitrary: cur)
  case Nil
  show ?case by simp
next
  case (Cons c f)
  then have nf: "\<not> contains '', '' f" and ns: "\<not> starts_with '', '' (c # f)" by auto
  show ?case
  proof (cases f)
    case Nil
    then show ?thesis by simp
  next
    case (Cons d f')
    with ns have "\<not> (c = CHR '','' \<and> d = CHR '' '')" by auto
    then have "split_from cur (c # f) = split_from (cur @ [c]) f"
      using Cons by auto
    then show ?thesis using Cons.IH [OF nf, of "cur @ [c]"] by simp
  qed
qed

lemma split_record:
  assumes "\<not> contains '', '' i" "\<not> contains '', '' a" "\<not> contains '', '' b" "\<not> contains '', '' c"
  shows "split_comma_space (i @ '', '' @ a @ '', '' @ b @ '', '' @ c) = [i, a, b, c]"
  unfolding split_comma_space_def
  using assms by (simp add: split_from_field split_from_last del: append.simps contains.simps)


text \<open>The lines stored as a record, told by their shape: the stripped line is four
  fields joined by comma and space, none of which contains that separator, and the three
  coordinates are accepted by \<open>float\<close>.\<close>

lemma split_from_nonempty: "split_from cur s \<noteq> []"
  by (induction cur s rule: split_from.induct) auto

lemma split_from_decomp:
  "split_from cur s = p # ps \<Longrightarrow>
   \<exists>f. p = cur @ f \<and> \<not> contains '', '' f \<and>
       (if ps = [] then s = f else \<exists>rest. s = f @ '', '' @ rest \<and> split_from [] rest = ps)"
proof (induction cur s arbitrary: p ps rule: split_from.induct)
  case (1 cur)
  then show ?case by auto
next
  case (2 cur c)
  then show ?case by auto
next
  case (3 cur c d s)
  show ?case
  proof (cases "c = CHR '','' \<and> d = CHR '' ''")
    case True
    with "3.prems" have "p = cur" "ps = split_from [] s" by auto
    then show ?thesis using True split_from_nonempty [of "[]" s] by auto
  next
    case False
    with "3.prems" have "split_from (cur @ [c]) (d # s) = p # ps" by auto
    from "3.IH"(2) [OF False this] obtain f where
      f: "p = (cur @ [c]) @ f" "\<not> contains '', '' f"
         "if ps = [] then d # s = f else \<exists>rest. d # s = f @ '', '' @ rest \<and> split_from [] rest = ps"
      by blast
    have hd: "f = [] \<or> hd f = d"
      using f(3) by (cases f) (auto split: if_splits)
    have "\<not> starts_with '', '' (c # f)"
      using False hd by (cases f) auto
    then have "\<not> contains '', '' (c # f)" using f(2) by simp
    moreover have "p = cur @ (c # f)" using f(1) by simp
    moreover have "if ps = [] then c # d # s = c # f
                   else \<exists>rest. c # d # s = (c # f) @ '', '' @ rest \<and> split_from [] rest = ps"
      using f(3) by (auto split: if_splits)
    ultimately show ?thesis by blast
  qed
qed

lemma parsed_as_record_iff:
  "parsed_as_record float_of line \<longleftrightarrow>
     (\<exists>node_id x y z.
        strip line = node_id @ '', '' @ x @ '', '' @ y @ '', '' @ z \<and>
        \<not> contains '', '' node_id \<and> \<not> contains '', '' x \<and>
        \<not> contains '', '' y \<and> \<not> contains '', '' z \<and>
        float_of x \<noteq> None \<and> float_of y \<noteq> None \<and> float_of z \<noteq> None)"
proof
  assume "parsed_as_record float_of line"
  then obtain i a b c where sp: "split_comma_space (strip line) = [i, a, b, c]"
    and fl: "float_of a \<noteq> None" "float_of b \<noteq> None" "float_of c \<noteq> None"
    by (auto simp: parsed_as_record_def split: list.splits)
  from sp have s0: "split_from [] (strip line) = i # [a, b, c]"
    by (simp add: split_comma_space_def)
  from split_from_decomp [OF s0] obtain r1 where
    1: "\<not> contains '', '' i" "strip line = i @ '', '' @ r1" "split_from [] r1 = a # [b, c]"
    by auto
  from split_from_decomp [OF 1(3)] obtain r2 where
    2: "\<not> contains '', '' a" "r1 = a @ '', '' @ r2" "split_from [] r2 = b # [c]"
    by auto
  from split_from_decomp [OF 2(3)] obtain r3 where
    3: "\<not> contains '', '' b" "r2 = b @ '', '' @ r3" "split_from [] r3 = c # []"
    by auto
  from split_from_decomp [OF 3(3)] have
    4: "\<not> contains '', '' c" "r3 = c"
    by auto
  have "strip line = i @ '', '' @ a @ '', '' @ b @ '', '' @ c"
    using 1(2) 2(2) 3(2) 4(2) by simp
  with 1(1) 2(1) 3(1) 4(1) fl
  show "\<exists>node_id x y z.
        strip line = node_id @ '', '' @ x @ '', '' @ y @ '', '' @ z \<and>
        \<not> contains '', '' node_id \<and> \<not> contains '', '' x \<and>
        \<not> contains '', '' y \<and> \<not> contains '', '' z \<and>
        float_of x \<noteq> None \<and> float_of y \<noteq> None \<and> float_of z \<noteq> None"
    by blast
next
  assume "\<exists>node_id x y z.
        strip line = node_id @ '', '' @ x @ '', '' @ y @ '', '' @ z \<and>
        \<not> contains '', '' node_id \<and> \<not> contains '', '' x \<and>
        \<not> contains '', '' y \<and> \<not> contains '', '' z \<and>
        float_of x \<noteq> None \<and> float_of y \<noteq> None \<and> float_of z \<noteq> None"
  then obtain i a b c where
    s: "strip line = i @ '', '' @ a @ '', '' @ b @ '', '' @ c"
    and n: "\<not> contains '', '' i" "\<not> contains '', '' a" "\<not> contains '', '' b" "\<not> contains '', '' c"
    and fl: "float_of a \<noteq> None" "float_of b \<noteq> None" "float_of c \<noteq> None"
    by blast
  have "split_comma_space (strip line) = [i, a, b, c]"
    unfolding s using n by (rule split_record)
  then show "parsed_as_record float_of line"
    using fl by (simp add: parsed_as_record_def)
qed


lemma parse_record_malformed:
  "\<not> parsed_as_record float_of line \<Longrightarrow> parse_record float_of (strip line) = Inl ValueError"
  by (auto simp: parsed_as_record_def split: list.splits option.splits)

lemma parse_record_error:
  "parse_record float_of line = Inl e \<Longrightarrow> e = ValueError"
  by (auto split: list.splits option.splits)

lemma scan_before:
  "\<forall>l\<in>set before. \<not> contains ''*Node'' l \<Longrightarrow>
   scan_lines float_of False m (before @ rest) = scan_lines float_of False m rest"
  by (induction before) (simp_all add: contains_marker_strip del: contains.simps)

lemma scan_marker:
  "contains ''*Node'' marker \<Longrightarrow>
   scan_lines float_of False m (marker # rest) = scan_lines float_of True m rest"
  by (simp add: contains_marker_strip del: contains.simps)



lemma scan_malformed:
  assumes "\<forall>l\<in>set ls. \<not> contains ''**'' l"
    and "\<not> contains ''**'' bad" and "\<not> parsed_as_record float_of bad"
  shows "scan_lines float_of True m (ls @ bad # rest) = Inl ValueError"
  using assms(1)
proof (induction ls arbitrary: m)
  case Nil
  show ?case
    using assms(2,3) parse_record_malformed [of float_of bad]
    by (simp add: contains_comment_strip del: contains.simps parse_record.simps)
next
  case (Cons l ls)
  then have nc: "\<not> contains ''**'' (strip l)"
    by (simp add: contains_comment_strip del: contains.simps)
  show ?case
  proof (cases "parse_record float_of (strip l)")
    case (Inl e)
    then have "e = ValueError" by (rule parse_record_error)
    then show ?thesis using nc Inl by (simp del: contains.simps parse_record.simps)
  next
    case (Inr ip)
    obtain i p where ip: "ip = (i, p)" by (cases ip) auto
    have "scan_lines float_of True (m(i \<mapsto> p)) (ls @ bad # rest) = Inl ValueError"
      using Cons.prems by (intro Cons.IH) simp
    then show ?thesis
      using nc Inr ip by (simp del: contains.simps parse_record.simps fun_upd_apply)
  qed
qed

lemma scan_no_marker:
  "\<forall>l\<in>set ls. \<not> contains ''*Node'' l \<Longrightarrow> scan_lines float_of False m ls = Inr m"
  using scan_before [of ls float_of m "[]"] by simp






section \<open>The formatters emit one record per node\<close>

lemma foldl_append_lines:
  "foldl (\<lambda>s a. s @ f a) s0 xs = s0 @ concat (map f xs)"
  by (induction xs arbitrary: s0) simp_all

lemma foldl_snoc_map:
  "foldl (\<lambda>acc a. acc @ [f a]) acc0 xs = acc0 @ map f xs"
  by (induction xs arbitrary: acc0) simp_all

lemma str_int_3: "str_int 3 = ''3''"
  by (simp add: str_int_def digits.simps)

lemma MPC_equations_map:
  "MPC_equations nodes base_nodes movable_nodes =
     map (\<lambda>(n, b, m). equation n b m) (zip nodes (zip base_nodes movable_nodes))"
proof -
  have "(\<lambda>equations (node_id, base_node_id, mv_node_id).
              equations @ [equation node_id base_node_id mv_node_id])
       = (\<lambda>acc a. acc @ [(\<lambda>(n, b, m). equation n b m) a])"
    by (simp add: fun_eq_iff split: prod.splits)
  then show ?thesis
    unfolding MPC_equations_def by (simp add: foldl_snoc_map)
qed

lemma zip3_nth:
  "zip xs (zip ys zs) =
     map (\<lambda>i. (xs ! i, ys ! i, zs ! i)) [0..<min (length xs) (min (length ys) (length zs))]"
  by (rule nth_equalityI) simp_all

lemma MPC_equations_nth:
  "MPC_equations nodes base_nodes movable_nodes =
     map (\<lambda>i. equation (nodes ! i) (base_nodes ! i) (movable_nodes ! i))
       [0..<min (length nodes) (min (length base_nodes) (length movable_nodes))]"
  unfolding MPC_equations_map by (subst zip3_nth) (simp add: comp_def)

lemma equation_text:
  "equation n b m =
     ''** MY EQUATIONS\<newline>*EQUATION\<newline>3\<newline>'' @ str_int n @ '', 3, -1, '' @
       str_int b @ '', 3, 1, '' @ str_int m @ '', 3, 1\<newline>''"
  by (simp add: equation_def str_int_3)

section \<open>The equation formatter\<close>

text \<open>
  C3. For every position \<open>i\<close> present in the three lists, the text returned by \<open>MPC\<close>
  contains the equation of the triple at that position: after the two header lines, the line
  \<open>3\<close> and then the line \<open>n, 3, -1, b, 3, 1, m, 3, 1\<close>, where \<open>n\<close>, \<open>b\<close> and \<open>m\<close>
  are the original, base and movable identifiers at position \<open>i\<close>.
\<close>

theorem MPC_triple_lines:
  assumes "i < length nodes" and "i < length base_nodes" and "i < length movable_nodes"
  shows "\<exists>before after. MPC nodes base_nodes movable_nodes =
           before @ ''** MY EQUATIONS\<newline>*EQUATION\<newline>'' @ ''3\<newline>'' @
           str_int (nodes ! i) @ '', 3, -1, '' @ str_int (base_nodes ! i) @ '', 3, 1, '' @
           str_int (movable_nodes ! i) @ '', 3, 1\<newline>'' @ after"
proof -
  let ?eqs = "MPC_equations nodes base_nodes movable_nodes"
  have len: "i < length ?eqs"
    using assms by (simp add: MPC_equations_nth)
  have nth: "?eqs ! i = equation (nodes ! i) (base_nodes ! i) (movable_nodes ! i)"
    using assms by (simp add: MPC_equations_nth)
  have "?eqs = take i ?eqs @ ?eqs ! i # drop (Suc i) ?eqs"
    using len by (rule id_take_nth_drop)
  then have "concat ?eqs = concat (take i ?eqs) @ ?eqs ! i @ concat (drop (Suc i) ?eqs)"
    by (metis concat.simps(2) concat_append)
  then have "MPC nodes base_nodes movable_nodes =
      concat (take i ?eqs) @ equation (nodes ! i) (base_nodes ! i) (movable_nodes ! i) @
      concat (drop (Suc i) ?eqs)"
    by (simp add: MPC_def nth)
  then show ?thesis
    unfolding equation_text by (intro exI [of _ "concat (take i ?eqs)"] exI [of _ "concat (drop (Suc i) ?eqs)"]) simp
qed

theorem MPC_triple_lines_witness:
  "(0::nat) < length [70::int] \<and> (0::nat) < length [5487::int] \<and> (0::nat) < length [5708::int] \<and>
   (\<exists>before after. MPC [70] [5487] [5708] =
           before @ ''** MY EQUATIONS\<newline>*EQUATION\<newline>'' @ ''3\<newline>'' @
           ''70, 3, -1, 5487, 3, 1, 5708, 3, 1\<newline>'' @ after)"
proof -
  have "str_int 70 = ''70''" "str_int 5487 = ''5487''" "str_int 5708 = ''5708''"
    by (simp_all add: str_int_def digits.simps)
  then show ?thesis
    using MPC_triple_lines [of 0 "[70]" "[5487]" "[5708]"] by simp
qed

text \<open>
  C10. \<open>MPC\<close> is total: whatever the lengths of the three lists, it returns the
  concatenation of exactly as many equation records as the shortest list has entries, the
  record at position \<open>i\<close> pairing the entries at position \<open>i\<close> of the three lists; the
  entries beyond the shortest length do not occur in the result.
\<close>

theorem MPC_shortest_list:
  "MPC nodes base_nodes movable_nodes =
     concat (map (\<lambda>i. ''** MY EQUATIONS\<newline>*EQUATION\<newline>3\<newline>'' @
                       str_int (nodes ! i) @ '', 3, -1, '' @ str_int (base_nodes ! i) @
                       '', 3, 1, '' @ str_int (movable_nodes ! i) @ '', 3, 1\<newline>'')
               [0..<min (length nodes) (min (length base_nodes) (length movable_nodes))])
   \<and> length (MPC_equations nodes base_nodes movable_nodes) =
       min (length nodes) (min (length base_nodes) (length movable_nodes))"
  by (simp add: MPC_def MPC_equations_nth equation_text)

section \<open>The boundary formatters\<close>

lemma fix_base_concat:
  "fix_base nodes = ''** Name: MY BOUNDARIES\<newline>*BOUNDARY\<newline>'' @
      concat (map (\<lambda>node_id. str_int node_id @ '', 1, 3, 0\<newline>'') nodes)"
  unfolding fix_base_def
  using foldl_append_lines [of "\<lambda>node_id. str_int node_id @ '', 1, 3, 0\<newline>''"] by simp

lemma constrain_dofs_concat:
  "constrain_dofs nodes = ''** MY BOUNDARIES\<newline>*BOUNDARY\<newline>'' @
      concat (map (\<lambda>node_id. str_int node_id @ '', 1, 2\<newline>'') nodes)"
  unfolding constrain_dofs_def
  using foldl_append_lines [of "\<lambda>node_id. str_int node_id @ '', 1, 2\<newline>''"] by simp

lemma str_int_7_8: "str_int 7 = ''7''" "str_int 8 = ''8''"
  by (simp_all add: str_int_def digits.simps)

text \<open>
  C6, as the code has it. \<open>fix_base\<close> on \<open>[7, 8]\<close> returns the two header lines
  \<open>** Name: MY BOUNDARIES\<close> and \<open>*BOUNDARY\<close> followed by exactly the two lines
  \<open>7, 1, 3, 0\<close> and \<open>8, 1, 3, 0\<close>; for every node list it returns that header followed by
  one line \<open>n, 1, 3, 0\<close> per node \<open>n\<close>, in the order of the list.
\<close>

theorem fix_base_header_then_records:
  "fix_base [7, 8] =
     ''** Name: MY BOUNDARIES\<newline>*BOUNDARY\<newline>7, 1, 3, 0\<newline>8, 1, 3, 0\<newline>'' \<and>
   fix_base nodes =
     ''** Name: MY BOUNDARIES\<newline>*BOUNDARY\<newline>'' @
     concat (map (\<lambda>node_id. str_int node_id @ '', 1, 3, 0\<newline>'') nodes)"
proof
  show "fix_base [7, 8] =
     ''** Name: MY BOUNDARIES\<newline>*BOUNDARY\<newline>7, 1, 3, 0\<newline>8, 1, 3, 0\<newline>''"
    by (simp add: fix_base_concat str_int_7_8)
  show "fix_base nodes =
     ''** Name: MY BOUNDARIES\<newline>*BOUNDARY\<newline>'' @
     concat (map (\<lambda>node_id. str_int node_id @ '', 1, 3, 0\<newline>'') nodes)"
    by (rule fix_base_concat)
qed

text \<open>
  C6, as stated, fails: the text returned for \<open>[7, 8]\<close> has four lines, not two, since the
  two header lines come first.
\<close>

theorem fix_base_two_lines_counterexample:
  "readlines (fix_base [7, 8]) \<noteq> [''7, 1, 3, 0\<newline>'', ''8, 1, 3, 0\<newline>''] \<and>
   length (readlines (fix_base [7, 8])) = 4"
  by (simp add: fix_base_concat str_int_7_8 readlines_def)

text \<open>
  C7, as the code has it. \<open>constrain_dofs\<close> on \<open>[7, 8]\<close> returns the two header lines
  \<open>** MY BOUNDARIES\<close> and \<open>*BOUNDARY\<close> followed by exactly the two lines \<open>7, 1, 2\<close> and
  \<open>8, 1, 2\<close>; for every node list it returns that header followed by one line \<open>n, 1, 2\<close>
  per node \<open>n\<close>, in the order of the list: degrees of freedom 1 to 2, the third left free.
\<close>

theorem constrain_dofs_header_then_records:
  "constrain_dofs [7, 8] =
     ''** MY BOUNDARIES\<newline>*BOUNDARY\<newline>7, 1, 2\<newline>8, 1, 2\<newline>'' \<and>
   constrain_dofs nodes =
     ''** MY BOUNDARIES\<newline>*BOUNDARY\<newline>'' @
     concat (map (\<lambda>node_id. str_int node_id @ '', 1, 2\<newline>'') nodes)"
proof
  show "constrain_dofs [7, 8] =
     ''** MY BOUNDARIES\<newline>*BOUNDARY\<newline>7, 1, 2\<newline>8, 1, 2\<newline>''"
    by (simp add: constrain_dofs_concat str_int_7_8)
  show "constrain_dofs nodes =
     ''** MY BOUNDARIES\<newline>*BOUNDARY\<newline>'' @
     concat (map (\<lambda>node_id. str_int node_id @ '', 1, 2\<newline>'') nodes)"
    by (rule constrain_dofs_concat)
qed

text \<open>
  C7, as stated, fails: the text returned for \<open>[7, 8]\<close> has four lines, not two, since the
  two header lines come first.
\<close>

theorem constrain_dofs_two_lines_counterexample:
  "readlines (constrain_dofs [7, 8]) \<noteq> [''7, 1, 2\<newline>'', ''8, 1, 2\<newline>''] \<and>
   length (readlines (constrain_dofs [7, 8])) = 4"
  by (simp add: constrain_dofs_concat str_int_7_8 readlines_def)

section \<open>Node-table extraction: missing marker and malformed records\<close>

text \<open>
  C5. When the file exists and none of its lines contains the marker \<open>*Node\<close>,
  \<open>get_nodes_map\<close> raises no error and returns the empty table.
\<close>

theorem get_nodes_map_no_marker:
  assumes "fs calculix_filename = Some content"
    and "\<forall>line\<in>set (readlines content). \<not> contains ''*Node'' line"
  shows "get_nodes_map float_of fs calculix_filename = Inr Map.empty"
  using assms by (simp add: get_nodes_map_def scan_no_marker)

theorem get_nodes_map_no_marker_witness:
  "[''Fitting_fea.inp'' \<mapsto> ''** Heading\<newline>1, 1.0, 2.0, 3.0\<newline>''] ''Fitting_fea.inp''
     = Some ''** Heading\<newline>1, 1.0, 2.0, 3.0\<newline>'' \<and>
   readlines ''** Heading\<newline>1, 1.0, 2.0, 3.0\<newline>'' =
     [''** Heading\<newline>'', ''1, 1.0, 2.0, 3.0\<newline>''] \<and>
   \<not> contains ''*Node'' ''** Heading\<newline>'' \<and>
   \<not> contains ''*Node'' ''1, 1.0, 2.0, 3.0\<newline>'' \<and>
   get_nodes_map float_sample
     [''Fitting_fea.inp'' \<mapsto> ''** Heading\<newline>1, 1.0, 2.0, 3.0\<newline>''] ''Fitting_fea.inp''
     = Inr Map.empty"
proof -
  let ?content = "''** Heading\<newline>1, 1.0, 2.0, 3.0\<newline>''"
  let ?fs = "[''Fitting_fea.inp'' \<mapsto> ?content]"
  have a: "?fs ''Fitting_fea.inp'' = Some ?content" by simp
  have l: "readlines ?content = [''** Heading\<newline>'', ''1, 1.0, 2.0, 3.0\<newline>'']"
    by (simp add: readlines_def)
  have c1: "\<not> contains ''*Node'' ''** Heading\<newline>''" by simp
  have c2: "\<not> contains ''*Node'' ''1, 1.0, 2.0, 3.0\<newline>''" by simp
  have b: "\<forall>line\<in>set (readlines ?content). \<not> contains ''*Node'' line"
    unfolding l using c1 c2 by simp
  show ?thesis
    using a l c1 c2
      get_nodes_map_no_marker [where fs = ?fs and calculix_filename = "''Fitting_fea.inp''"
        and content = ?content and float_of = float_sample, OF a b]
    by blast
qed

text \<open>
  C8, as the code has it. When the first line containing the marker \<open>*Node\<close> is followed,
  before any line containing the comment marker \<open>**\<close>, by a line that contains no \<open>**\<close>
  and that, stripped, is not four fields joined by comma and space of which the last three
  are accepted by \<open>float\<close>, \<open>get_nodes_map\<close> returns no table: it raises ValueError,
  whatever the lines before and after are. The identifier field is not checked.
\<close>

theorem get_nodes_map_unparsed_line:
  assumes "fs calculix_filename = Some content"
    and "readlines content = before @ [marker] @ records @ [bad] @ after"
    and "\<forall>line\<in>set before. \<not> contains ''*Node'' line"
    and "contains ''*Node'' marker"
    and "\<forall>line\<in>set records. \<not> contains ''**'' line"
    and "\<not> contains ''**'' bad"
    and "\<not> (\<exists>node_id x y z.
              strip bad = node_id @ '', '' @ x @ '', '' @ y @ '', '' @ z \<and>
              \<not> contains '', '' node_id \<and> \<not> contains '', '' x \<and>
              \<not> contains '', '' y \<and> \<not> contains '', '' z \<and>
              float_of x \<noteq> None \<and> float_of y \<noteq> None \<and> float_of z \<noteq> None)"
  shows "get_nodes_map float_of fs calculix_filename = Inl ValueError"
proof -
  have bad: "\<not> parsed_as_record float_of bad"
    using assms(7) unfolding parsed_as_record_iff .
  have "get_nodes_map float_of fs calculix_filename =
        scan_lines float_of False Map.empty (before @ marker # records @ bad # after)"
    using assms(1,2) by (simp add: get_nodes_map_def)
  also have "\<dots> = scan_lines float_of False Map.empty (marker # records @ bad # after)"
    using assms(3) by (rule scan_before)
  also have "\<dots> = scan_lines float_of True Map.empty (records @ bad # after)"
    using assms(4) by (rule scan_marker)
  also have "\<dots> = Inl ValueError"
    using assms(5,6) bad by (rule scan_malformed)
  finally show ?thesis .
qed

theorem get_nodes_map_unparsed_line_witness:
  "[''Fitting_fea.inp'' \<mapsto> ''*Node\<newline>1, 1.0, 2.0, 3.0\<newline>2, 1.0, 2.0\<newline>** Elements\<newline>'']
      ''Fitting_fea.inp''
     = Some ''*Node\<newline>1, 1.0, 2.0, 3.0\<newline>2, 1.0, 2.0\<newline>** Elements\<newline>'' \<and>
   readlines ''*Node\<newline>1, 1.0, 2.0, 3.0\<newline>2, 1.0, 2.0\<newline>** Elements\<newline>'' =
     [] @ [''*Node\<newline>''] @ [''1, 1.0, 2.0, 3.0\<newline>''] @ [''2, 1.0, 2.0\<newline>''] @
     [''** Elements\<newline>''] \<and>
   contains ''*Node'' ''*Node\<newline>'' \<and>
   \<not> contains ''**'' ''1, 1.0, 2.0, 3.0\<newline>'' \<and>
   \<not> contains ''**'' ''2, 1.0, 2.0\<newline>'' \<and>
   \<not> (\<exists>node_id x y z.
         strip ''2, 1.0, 2.0\<newline>'' = node_id @ '', '' @ x @ '', '' @ y @ '', '' @ z \<and>
         \<not> contains '', '' node_id \<and> \<not> contains '', '' x \<and>
         \<not> contains '', '' y \<and> \<not> contains '', '' z \<and>
         float_sample x \<noteq> None \<and> float_sample y \<noteq> None \<and> float_sample z \<noteq> None) \<and>
   get_nodes_map float_sample
     [''Fitting_fea.inp'' \<mapsto> ''*Node\<newline>1, 1.0, 2.0, 3.0\<newline>2, 1.0, 2.0\<newline>** Elements\<newline>'']
     ''Fitting_fea.inp'' = Inl ValueError"
proof -
  let ?content = "''*Node\<newline>1, 1.0, 2.0, 3.0\<newline>2, 1.0, 2.0\<newline>** Elements\<newline>''"
  let ?fs = "[''Fitting_fea.inp'' \<mapsto> ?content]"
  have a: "?fs ''Fitting_fea.inp'' = Some ?content" by simp
  have b: "readlines ?content =
     [] @ [''*Node\<newline>''] @ [''1, 1.0, 2.0, 3.0\<newline>''] @ [''2, 1.0, 2.0\<newline>''] @
     [''** Elements\<newline>'']"
    by (simp add: readlines_def)
  have c: "\<forall>line\<in>set []. \<not> contains ''*Node'' line" by simp
  have d: "contains ''*Node'' ''*Node\<newline>''" by simp
  have e1: "\<not> contains ''**'' ''1, 1.0, 2.0, 3.0\<newline>''" by simp
  have e: "\<forall>line\<in>set [''1, 1.0, 2.0, 3.0\<newline>'']. \<not> contains ''**'' line" by simp
  have f: "\<not> contains ''**'' ''2, 1.0, 2.0\<newline>''" by simp
  have "\<not> parsed_as_record float_sample ''2, 1.0, 2.0\<newline>''"
    by (simp add: parsed_as_record_def strip_def isspace_def split_comma_space_def)
  then have g: "\<not> (\<exists>node_id x y z.
         strip ''2, 1.0, 2.0\<newline>'' = node_id @ '', '' @ x @ '', '' @ y @ '', '' @ z \<and>
         \<not> contains '', '' node_id \<and> \<not> contains '', '' x \<and>
         \<not> contains '', '' y \<and> \<not> contains '', '' z \<and>
         float_sample x \<noteq> None \<and> float_sample y \<noteq> None \<and> float_sample z \<noteq> None)"
    unfolding parsed_as_record_iff .
  have r: "get_nodes_map float_sample ?fs ''Fitting_fea.inp'' = Inl ValueError"
    using get_nodes_map_unparsed_line [where fs = ?fs and calculix_filename = "''Fitting_fea.inp''"
        and content = ?content and before = "[]" and marker = "''*Node\<newline>''"
        and records = "[''1, 1.0, 2.0, 3.0\<newline>'']" and bad = "''2, 1.0, 2.0\<newline>''"
        and after = "[''** Elements\<newline>'']" and float_of = float_sample, OF a b c d e f g] .
  from a b d e1 f g r show ?thesis by (intro conjI)
qed

lemma well_formed_record_parsed:
  "well_formed_record float_of line \<Longrightarrow> parsed_as_record float_of line"
  by (auto simp: well_formed_record_def parsed_as_record_def split: list.splits)

lemma well_formed_record_sample:
  "well_formed_record float_sample ''1, 1.0, 2.0, 3.0\<newline>''"
  by (simp add: well_formed_record_def is_integer_text_def strip_def isspace_def
      split_comma_space_def float_sample_def)

text \<open>
  C8, as stated, fails in two ways. A line after the marker whose identifier field is no
  integer is not a well-formed record, yet it is stored and a table is returned; and a line
  that is neither a comment line nor a record raises nothing when a comment line comes
  before it, since the loop ends at that comment line.
\<close>

theorem get_nodes_map_malformed_line_counterexample:
  "\<not> contains ''**'' ''node one, 1.0, 2.0, 3.0\<newline>'' \<and>
   \<not> well_formed_record float_sample ''node one, 1.0, 2.0, 3.0\<newline>'' \<and>
   get_nodes_map float_sample
     [''Fitting_fea.inp'' \<mapsto> ''*Node\<newline>node one, 1.0, 2.0, 3.0\<newline>** Elements\<newline>'']
     ''Fitting_fea.inp'' = Inr [''node one'' \<mapsto> Point 1 2 3] \<and>
   \<not> contains ''**'' ''not a record\<newline>'' \<and>
   \<not> well_formed_record float_sample ''not a record\<newline>'' \<and>
   get_nodes_map float_sample
     [''Fitting_fea.inp'' \<mapsto> ''*Node\<newline>1, 1.0, 2.0, 3.0\<newline>** Elements\<newline>not a record\<newline>'']
     ''Fitting_fea.inp'' = Inr [''1'' \<mapsto> Point 1 2 3]"
  by (simp add: well_formed_record_def is_integer_text_def get_nodes_map_def readlines_def
      strip_def isspace_def split_comma_space_def float_sample_def)

section \<open>Node-table extraction: the records between marker and terminator\<close>






section \<open>Node synthesis: identifiers, text and lookup errors\<close>

lemma gen_nodes_loop_present:
  assumes "\<forall>(i, node_id)\<in>set ps. nodes_map (str_int node_id) \<noteq> None"
  shows "gen_nodes_loop fmt nodes_map first_node_id ps s dummy_nodes =
     Inr (s @ concat (map (\<lambda>(i, node_id).
                str_int (first_node_id + int i) @ '', '' @
                fmt (x_of (the (nodes_map (str_int node_id)))) @ '', '' @
                fmt (y_of (the (nodes_map (str_int node_id)))) @ '', '' @
                fmt (z_of (the (nodes_map (str_int node_id)))) @ ''\<newline>'') ps),
          dummy_nodes @ map (\<lambda>(i, node_id). first_node_id + int i) ps)"
  using assms
proof (induction ps arbitrary: s dummy_nodes)
  case Nil
  show ?case by simp
next
  case (Cons a ps)
  obtain i q where a: "a = (i, q)" by (cases a) auto
  from Cons.prems a obtain p where p: "nodes_map (str_int q) = Some p" by auto
  obtain x y z where xyz: "p = Point x y z" by (cases p) auto
  have rest: "\<forall>(i, node_id)\<in>set ps. nodes_map (str_int node_id) \<noteq> None"
    using Cons.prems by simp
  show ?case
    unfolding a using p xyz Cons.IH [OF rest] by simp
qed

lemma gen_nodes_loop_absent:
  assumes "\<exists>(i, node_id)\<in>set ps. nodes_map (str_int node_id) = None"
  shows "gen_nodes_loop fmt nodes_map first_node_id ps s dummy_nodes = Inl KeyError"
  using assms
proof (induction ps arbitrary: s dummy_nodes)
  case Nil
  then show ?case by simp
next
  case (Cons a ps)
  obtain i q where a: "a = (i, q)" by (cases a) auto
  show ?case
  proof (cases "nodes_map (str_int q)")
    case None
    then show ?thesis by (simp add: a)
  next
    case (Some p)
    obtain x y z where xyz: "p = Point x y z" by (cases p) auto
    from Cons.prems Some a have "\<exists>(i, node_id)\<in>set ps. nodes_map (str_int node_id) = None"
      by auto
    then show ?thesis
      unfolding a using Some xyz Cons.IH by simp
  qed
qed

lemma map_enumerate:
  "map f (enumerate 0 xs) = map (\<lambda>i. f (i, xs ! i)) [0..<length xs]"
  by (rule nth_equalityI) (simp_all add: nth_enumerate_eq)

lemma gen_nodes_result:
  assumes "get_nodes_map float_of fs calculix_filename = Inr nodes_map"
    and "\<forall>node_id\<in>set query_nodes. nodes_map (str_int node_id) \<noteq> None"
  shows "gen_nodes float_of fmt fs first_node_id query_nodes calculix_filename =
     Inr (''** MY NODES\<newline>*Node\<newline>'' @
          concat (map (\<lambda>i. str_int (first_node_id + int i) @ '', '' @
                     fmt (x_of (the (nodes_map (str_int (query_nodes ! i))))) @ '', '' @
                     fmt (y_of (the (nodes_map (str_int (query_nodes ! i))))) @ '', '' @
                     fmt (z_of (the (nodes_map (str_int (query_nodes ! i))))) @ ''\<newline>'')
                  [0..<length query_nodes]),
          map (\<lambda>i. first_node_id + int i) [0..<length query_nodes])"
proof -
  have "\<forall>(i, node_id)\<in>set (enumerate 0 query_nodes). nodes_map (str_int node_id) \<noteq> None"
    using assms(2) by (auto simp: in_set_enumerate_eq)
  then show ?thesis
    unfolding gen_nodes_def assms(1)
    by (simp add: gen_nodes_loop_present map_enumerate del: append.simps)
qed

lemma gen_nodes_KeyError:
  assumes "get_nodes_map float_of fs calculix_filename = Inr nodes_map"
    and "\<exists>node_id\<in>set query_nodes. nodes_map (str_int node_id) = None"
  shows "gen_nodes float_of fmt fs first_node_id query_nodes calculix_filename = Inl KeyError"
proof -
  from assms(2) obtain q where q: "q \<in> set query_nodes" "nodes_map (str_int q) = None" by blast
  then obtain k where "k < length query_nodes" "query_nodes ! k = q"
    by (auto simp: in_set_conv_nth)
  then have "(k, q) \<in> set (enumerate 0 query_nodes)"
    by (simp add: in_set_enumerate_eq)
  with q(2) have "\<exists>(i, node_id)\<in>set (enumerate 0 query_nodes). nodes_map (str_int node_id) = None"
    by blast
  then show ?thesis
    unfolding gen_nodes_def assms(1) by (simp add: gen_nodes_loop_absent)
qed

lemma gen_nodes_returns_present:
  assumes "gen_nodes float_of fmt fs first_node_id query_nodes calculix_filename = Inr r"
  shows "\<exists>nodes_map. get_nodes_map float_of fs calculix_filename = Inr nodes_map \<and>
           (\<forall>node_id\<in>set query_nodes. nodes_map (str_int node_id) \<noteq> None)"
proof -
  from assms obtain nodes_map where m: "get_nodes_map float_of fs calculix_filename = Inr nodes_map"
    unfolding gen_nodes_def by (auto split: sum.splits)
  have "\<forall>node_id\<in>set query_nodes. nodes_map (str_int node_id) \<noteq> None"
  proof (rule ccontr)
    assume "\<not> (\<forall>node_id\<in>set query_nodes. nodes_map (str_int node_id) \<noteq> None)"
    then have "\<exists>node_id\<in>set query_nodes. nodes_map (str_int node_id) = None" by simp
    from gen_nodes_KeyError [OF m this] assms show False by simp
  qed
  with m show ?thesis by blast
qed

lemma sample_mesh_table:
  "get_nodes_map float_sample
     [''Fitting_fea.inp'' \<mapsto> ''** Heading\<newline>*Node\<newline>42, 1.0, 2.0, 3.0\<newline>** Elements\<newline>'']
     ''Fitting_fea.inp'' = Inr [''42'' \<mapsto> Point 1 2 3]"
  by (simp add: get_nodes_map_def readlines_def strip_def isspace_def split_comma_space_def
      float_sample_def)

lemma str_int_samples:
  "str_int 42 = ''42''" "str_int 7 = ''7''" "str_int 100 = ''100''" "str_int 101 = ''101''"
  "str_int 1 = ''1''" "str_int 2 = ''2''" "str_int 3 = ''3''"
  by (simp_all add: str_int_def digits.simps)

lemma sample_mesh_first_call:
  "gen_nodes float_sample repr_sample
     [''Fitting_fea.inp'' \<mapsto> ''** Heading\<newline>*Node\<newline>42, 1.0, 2.0, 3.0\<newline>** Elements\<newline>'']
     100 [42] ''Fitting_fea.inp'' =
     Inr (''** MY NODES\<newline>*Node\<newline>100, 1.0, 2.0, 3.0\<newline>'', [100])"
  by (simp add: gen_nodes_def sample_mesh_table str_int_samples repr_sample_def)

text \<open>
  C1. When the table is extracted and every query node has an entry in it, \<open>gen_nodes\<close>
  with first identifier \<open>N\<close> and \<open>k\<close> query nodes returns the identifiers
  \<open>N, N+1, ..., N+k-1\<close> in that order, and its text is the header followed, for each
  position \<open>i\<close> in order, by the line holding the identifier \<open>N+i\<close> and the three
  coordinates the table has for the query node at position \<open>i\<close>.
\<close>

theorem gen_nodes_sequential:
  assumes "get_nodes_map float_of fs calculix_filename = Inr nodes_map"
    and "\<forall>node_id\<in>set query_nodes. nodes_map (str_int node_id) \<noteq> None"
  shows "gen_nodes float_of fmt fs first_node_id query_nodes calculix_filename =
     Inr (''** MY NODES\<newline>*Node\<newline>'' @
          concat (map (\<lambda>i. str_int (first_node_id + int i) @ '', '' @
                     fmt (x_of (the (nodes_map (str_int (query_nodes ! i))))) @ '', '' @
                     fmt (y_of (the (nodes_map (str_int (query_nodes ! i))))) @ '', '' @
                     fmt (z_of (the (nodes_map (str_int (query_nodes ! i))))) @ ''\<newline>'')
                  [0..<length query_nodes]),
          map (\<lambda>i. first_node_id + int i) [0..<length query_nodes])"
  using assms by (rule gen_nodes_result)

theorem gen_nodes_sequential_witness:
  "get_nodes_map float_sample
     [''Fitting_fea.inp'' \<mapsto> ''** Heading\<newline>*Node\<newline>42, 1.0, 2.0, 3.0\<newline>** Elements\<newline>'']
     ''Fitting_fea.inp'' = Inr [''42'' \<mapsto> Point 1 2 3] \<and>
   [''42'' \<mapsto> Point (1::int) 2 3] (str_int 42) \<noteq> None \<and>
   gen_nodes float_sample repr_sample
     [''Fitting_fea.inp'' \<mapsto> ''** Heading\<newline>*Node\<newline>42, 1.0, 2.0, 3.0\<newline>** Elements\<newline>'']
     100 [42] ''Fitting_fea.inp'' =
     Inr (''** MY NODES\<newline>*Node\<newline>100, 1.0, 2.0, 3.0\<newline>'', [100])"
proof -
  have b: "\<forall>node_id\<in>set [42]. [''42'' \<mapsto> Point (1::int) 2 3] (str_int node_id) \<noteq> None"
    by (simp add: str_int_samples)
  show ?thesis
    using sample_mesh_table b
      gen_nodes_sequential [OF sample_mesh_table b, of repr_sample 100]
    by (simp add: str_int_samples repr_sample_def)
qed

text \<open>
  C9. When the table is extracted and some query node has no entry in it, \<open>gen_nodes\<close>
  returns no result: the lookup raises KeyError, which nothing catches.
\<close>

theorem gen_nodes_absent_node:
  assumes "get_nodes_map float_of fs calculix_filename = Inr nodes_map"
    and "\<exists>node_id\<in>set query_nodes. nodes_map (str_int node_id) = None"
  shows "gen_nodes float_of fmt fs first_node_id query_nodes calculix_filename = Inl KeyError"
  using assms by (rule gen_nodes_KeyError)

theorem gen_nodes_absent_node_witness:
  "get_nodes_map float_sample
     [''Fitting_fea.inp'' \<mapsto> ''** Heading\<newline>*Node\<newline>42, 1.0, 2.0, 3.0\<newline>** Elements\<newline>'']
     ''Fitting_fea.inp'' = Inr [''42'' \<mapsto> Point 1 2 3] \<and>
   [''42'' \<mapsto> Point (1::int) 2 3] (str_int 7) = None \<and>
   gen_nodes float_sample repr_sample
     [''Fitting_fea.inp'' \<mapsto> ''** Heading\<newline>*Node\<newline>42, 1.0, 2.0, 3.0\<newline>** Elements\<newline>'']
     100 [42, 7] ''Fitting_fea.inp'' = Inl KeyError"
proof -
  have b: "\<exists>node_id\<in>set [42, 7]. [''42'' \<mapsto> Point (1::int) 2 3] (str_int node_id) = None"
    by (simp add: str_int_samples)
  show ?thesis
    using sample_mesh_table b
      gen_nodes_absent_node [OF sample_mesh_table b, of repr_sample 100]
    by (simp add: str_int_samples)
qed

text \<open>
  C2. When a first call of \<open>gen_nodes\<close> with first identifier \<open>N\<close> returns, a second call
  on the same file and query nodes with first identifier \<open>N\<close> plus the number of
  identifiers the first call returned (the script does so with \<open>N = 5487\<close>) returns too,
  and the two identifier lists have no identifier in common.
\<close>

theorem gen_nodes_twice_disjoint:
  assumes "gen_nodes float_of fmt fs first_node_id query_nodes calculix_filename =
             Inr (s1, dummy_base_nodes)"
  shows "\<exists>s2 dummy_movable_nodes.
           gen_nodes float_of fmt fs (first_node_id + int (length dummy_base_nodes)) query_nodes
             calculix_filename = Inr (s2, dummy_movable_nodes) \<and>
           set dummy_base_nodes \<inter> set dummy_movable_nodes = {}"
proof -
  from gen_nodes_returns_present [OF assms] obtain nodes_map where
    m: "get_nodes_map float_of fs calculix_filename = Inr nodes_map"
    and p: "\<forall>node_id\<in>set query_nodes. nodes_map (str_int node_id) \<noteq> None"
    by blast
  have b: "dummy_base_nodes = map (\<lambda>i. first_node_id + int i) [0..<length query_nodes]"
    using assms gen_nodes_result [OF m p, of fmt first_node_id] by simp
  then have len: "length dummy_base_nodes = length query_nodes" by simp
  let ?d2 = "map (\<lambda>i. first_node_id + int (length dummy_base_nodes) + int i) [0..<length query_nodes]"
  have "set dummy_base_nodes \<inter> set ?d2 = {}"
    unfolding len unfolding b by auto
  then show ?thesis
    using gen_nodes_result [OF m p, of fmt "first_node_id + int (length dummy_base_nodes)"]
    by blast
qed

theorem gen_nodes_twice_disjoint_witness:
  "gen_nodes float_sample repr_sample
     [''Fitting_fea.inp'' \<mapsto> ''** Heading\<newline>*Node\<newline>42, 1.0, 2.0, 3.0\<newline>** Elements\<newline>'']
     100 [42] ''Fitting_fea.inp'' =
     Inr (''** MY NODES\<newline>*Node\<newline>100, 1.0, 2.0, 3.0\<newline>'', [100]) \<and>
   (\<exists>s2 dummy_movable_nodes.
      gen_nodes float_sample repr_sample
        [''Fitting_fea.inp'' \<mapsto> ''** Heading\<newline>*Node\<newline>42, 1.0, 2.0, 3.0\<newline>** Elements\<newline>'']
        (100 + int (length [100::int])) [42] ''Fitting_fea.inp'' = Inr (s2, dummy_movable_nodes) \<and>
      set [100] \<inter> set dummy_movable_nodes = {})"
  using sample_mesh_first_call gen_nodes_twice_disjoint [OF sample_mesh_first_call]
  by blast

end
